theory Spec2Isabelle
  imports Main
begin

section \<open>Values, tasks and the key-value store\<close>

text \<open>
  The extension exists in two revisions: \<^verbatim>\<open>src/popup.js\<close> (tasks without an id, lists
  rendered in stored order) and \<^verbatim>\<open>src/unnamed/part_000\<close> (tasks with an id taken from
  the clock, lists rendered incomplete-first). Definitions without a suffix embed
  \<^verbatim>\<open>part_000\<close>; a definition ending in \<open>_popup\<close> embeds the function of the same name
  of \<^verbatim>\<open>popup.js\<close> where the two differ.

  A task object has the fields \<open>id\<close>, \<open>text\<close> and \<open>completed\<close>. The id is a number
  (\<open>Date.now()\<close>) or missing (\<open>undefined\<close>, a task made by \<^verbatim>\<open>popup.js\<close>).
\<close>

record task =
  task_id :: "int option"
  task_text :: string
  completed :: bool

text \<open>
  The JavaScript values that reach the functions below: \<open>undefined\<close>, a string, or an
  array of task objects.
\<close>

datatype jsval = JUndefined | JString string | JArray "task list"

datatype error = TypeError

definition truthy :: "jsval \<Rightarrow> bool" where
  "truthy v = (case v of JUndefined \<Rightarrow> False | JString s \<Rightarrow> s \<noteq> [] | JArray xs \<Rightarrow> True)"

definition js_or :: "jsval \<Rightarrow> jsval \<Rightarrow> jsval" where
  "js_or a b = (if truthy a then a else b)"

definition TODAY_TASKS_KEY :: string where
  "TODAY_TASKS_KEY = ''tasks''"

definition SPILLOVER_TASKS_KEY :: string where
  "SPILLOVER_TASKS_KEY = ''spilloverTasks''"

definition LAST_OPEN_DATE_KEY :: string where
  "LAST_OPEN_DATE_KEY = ''lastOpenDate''"

text \<open>
  \<open>chrome.storage.sync\<close>: the stored items, and the log of the \<open>set\<close> calls made so
  far (each call with its entries, in the order of the object literal).
\<close>

record storage =
  items :: "string \<rightharpoonup> jsval"
  setCalls :: "(string \<times> jsval) list list"

definition getData_popup :: "string \<Rightarrow> storage \<Rightarrow> jsval" where
  "getData_popup key st = (case items st key of None \<Rightarrow> JUndefined | Some v \<Rightarrow> v)"

definition getData :: "string \<Rightarrow> storage \<Rightarrow> jsval" where
  "getData key st =
     js_or (case items st key of None \<Rightarrow> JUndefined | Some v \<Rightarrow> v) (JArray [])"

definition saveData :: "(string \<times> jsval) list \<Rightarrow> storage \<Rightarrow> storage" where
  "saveData data st =
     st\<lparr>items := fold (\<lambda>(k, v) m. m(k \<mapsto> v)) data (items st),
        setCalls := setCalls st @ [data]\<rparr>"

section \<open>Daily rollover\<close>

text \<open>
  \<open>handleDailyRollover(todayTasks, lastOpenDate)\<close>. The result of
  \<open>getTodayDateString()\<close> is the parameter \<open>todayDate\<close>. \<open>todayTasks.filter\<close> throws a
  TypeError when \<open>todayTasks\<close> is not an array; nothing has been saved at that point.
\<close>

record rollover_result =
  res_todayTasks :: jsval
  res_spilloverTasks :: jsval

definition handleDailyRollover ::
  "string \<Rightarrow> jsval \<Rightarrow> jsval \<Rightarrow> storage \<Rightarrow> (error + rollover_result) \<times> storage" where
  "handleDailyRollover todayDate todayTasks lastOpenDate st =
     (if truthy lastOpenDate \<and> lastOpenDate \<noteq> JString todayDate then
        (case todayTasks of
           JArray ts \<Rightarrow>
             (let unfinishedTasks = filter (\<lambda>task. \<not> completed task) ts;
                  newTodayTasks = [];
                  st' = saveData
                    [(SPILLOVER_TASKS_KEY, JArray unfinishedTasks),
                     (TODAY_TASKS_KEY, JArray newTodayTasks),
                     (LAST_OPEN_DATE_KEY, JString todayDate)] st
              in (Inr \<lparr>res_todayTasks = JArray newTodayTasks,
                       res_spilloverTasks = JArray unfinishedTasks\<rparr>, st'))
         | _ \<Rightarrow> (Inl TypeError, st))
      else
        (let st' = (if \<not> truthy lastOpenDate
                    then saveData [(LAST_OPEN_DATE_KEY, JString todayDate)] st else st);
             spilloverTasks = getData SPILLOVER_TASKS_KEY st'
         in (Inr \<lparr>res_todayTasks = todayTasks, res_spilloverTasks = spilloverTasks\<rparr>, st')))"

definition handleDailyRollover_popup ::
  "string \<Rightarrow> jsval \<Rightarrow> jsval \<Rightarrow> storage \<Rightarrow> (error + rollover_result) \<times> storage" where
  "handleDailyRollover_popup todayDate todayTasks lastOpenDate st =
     (if truthy lastOpenDate \<and> lastOpenDate \<noteq> JString todayDate then
        (case todayTasks of
           JArray ts \<Rightarrow>
             (let unfinishedTasks = filter (\<lambda>task. \<not> completed task) ts;
                  newTodayTasks = [];
                  st' = saveData
                    [(SPILLOVER_TASKS_KEY, JArray unfinishedTasks),
                     (TODAY_TASKS_KEY, JArray newTodayTasks),
                     (LAST_OPEN_DATE_KEY, JString todayDate)] st
              in (Inr \<lparr>res_todayTasks = JArray newTodayTasks,
                       res_spilloverTasks = JArray unfinishedTasks\<rparr>, st'))
         | _ \<Rightarrow> (Inl TypeError, st))
      else
        (let st' = (if \<not> truthy lastOpenDate
                    then saveData [(LAST_OPEN_DATE_KEY, JString todayDate)] st else st);
             spilloverTasks = js_or (getData_popup SPILLOVER_TASKS_KEY st') (JArray [])
         in (Inr \<lparr>res_todayTasks = todayTasks, res_spilloverTasks = spilloverTasks\<rparr>, st')))"

text \<open>
  The first steps of \<open>initialize()\<close>: read the today-list and the last-open date from
  storage and hand them to \<open>handleDailyRollover\<close>. The rendering and the wiring of the
  listeners that follow in \<open>initialize\<close> do not touch storage.
\<close>

definition initialize_rollover ::
  "string \<Rightarrow> storage \<Rightarrow> (error + rollover_result) \<times> storage" where
  "initialize_rollover todayDate st =
     (let todayTasks = getData TODAY_TASKS_KEY st;
          lastOpenDate = getData LAST_OPEN_DATE_KEY st
      in handleDailyRollover todayDate todayTasks lastOpenDate st)"

definition initialize_rollover_popup ::
  "string \<Rightarrow> storage \<Rightarrow> (error + rollover_result) \<times> storage" where
  "initialize_rollover_popup todayDate st =
     (let todayTasks = js_or (getData_popup TODAY_TASKS_KEY st) (JArray []);
          lastOpenDate = getData_popup LAST_OPEN_DATE_KEY st
      in handleDailyRollover_popup todayDate todayTasks lastOpenDate st)"

section \<open>Sorting for display\<close>

text \<open>
  The comparator \<open>(a, b) => a.completed - b.completed\<close>: the subtraction turns the two
  booleans into the numbers 0 and 1.
\<close>

definition toNumber :: "bool \<Rightarrow> int" where
  "toNumber b = (if b then 1 else 0)"

definition compareCompleted :: "task \<Rightarrow> task \<Rightarrow> int" where
  "compareCompleted a b = toNumber (completed a) - toNumber (completed b)"

text \<open>
  \<open>Array.prototype.sort\<close> belongs to the JavaScript engine, not to the repository.
  ECMAScript 2019 requires it to be stable: elements that compare equal keep their
  order. It is computed here by inserting the elements from the right, each one in front
  of the first element that it does not compare greater than.
\<close>

fun insert_sorted :: "('a \<Rightarrow> 'a \<Rightarrow> int) \<Rightarrow> 'a \<Rightarrow> 'a list \<Rightarrow> 'a list" where
  "insert_sorted cmp x [] = [x]"
| "insert_sorted cmp x (y # ys) =
     (if cmp x y \<le> 0 then x # y # ys else y # insert_sorted cmp x ys)"

definition js_sort :: "('a \<Rightarrow> 'a \<Rightarrow> int) \<Rightarrow> 'a list \<Rightarrow> 'a list" where
  "js_sort cmp xs = foldr (insert_sorted cmp) xs []"

text \<open>\<open>findIndex\<close>: the first position whose element satisfies the test; \<open>None\<close> is -1.\<close>

fun findIndex :: "('a \<Rightarrow> bool) \<Rightarrow> 'a list \<Rightarrow> nat option" where
  "findIndex p [] = None"
| "findIndex p (x # xs) = (if p x then Some 0 else map_option Suc (findIndex p xs))"

text \<open>\<open>splice(index, deleteCount)\<close> for a start that is not negative: the array afterwards.\<close>

definition js_splice :: "nat \<Rightarrow> nat \<Rightarrow> 'a list \<Rightarrow> 'a list" where
  "js_splice index deleteCount xs = take index xs @ drop (index + deleteCount) xs"

section \<open>The popup: arrays in memory, storage and the page\<close>

text \<open>
  A list item made by \<open>createTaskElement\<close>: what it shows, and the variables its event
  handlers have captured. \<open>cl_listArray\<close> is a reference to an array object.
\<close>

record element =
  li_completed :: bool
  taskText :: string
  cl_task :: task
  cl_listArray :: nat
  cl_index :: nat
  cl_isSpillover :: bool

text \<open>
  Arrays are objects: \<open>sort\<close> and \<open>splice\<close> change the array they are called on, and
  every holder of a reference sees the change. \<open>arrays\<close> is the memory of array objects,
  a reference being a position in it; references held by the program are always below
  \<open>length arrays\<close>. \<open>initializeCalls\<close> counts the calls of \<open>initialize()\<close> that the handlers
  start without awaiting them.
\<close>

record world =
  arrays :: "task list list"
  store :: storage
  taskList :: "element list"
  spilloverList :: "element list"
  spilloverSection_display :: string
  taskInput_value :: string
  initializeCalls :: nat

definition createTaskElement :: "task \<Rightarrow> nat \<Rightarrow> nat \<Rightarrow> bool \<Rightarrow> element" where
  "createTaskElement task listArray index isSpillover =
     \<lparr>li_completed = completed task, taskText = task_text task, cl_task = task,
      cl_listArray = listArray, cl_index = index, cl_isSpillover = isSpillover\<rparr>"

text \<open>The click handler of the delete button of an element.\<close>

definition deleteBtn_click :: "element \<Rightarrow> world \<Rightarrow> world" where
  "deleteBtn_click e w =
     (let listArray = cl_listArray e;
          w1 = w\<lparr>arrays := (arrays w)[listArray := js_splice (cl_index e) 1 (arrays w ! listArray)]\<rparr>;
          key = (if cl_isSpillover e then SPILLOVER_TASKS_KEY else TODAY_TASKS_KEY);
          w2 = w1\<lparr>store := saveData [(key, JArray (arrays w1 ! listArray))] (store w1)\<rparr>
      in w2\<lparr>initializeCalls := Suc (initializeCalls w2)\<rparr>)"

text \<open>\<open>slice()\<close> makes a new array with the same elements; \<open>sort\<close> sorts in place.\<close>

definition array_slice :: "nat \<Rightarrow> world \<Rightarrow> nat \<times> world" where
  "array_slice a w = (length (arrays w), w\<lparr>arrays := arrays w @ [arrays w ! a]\<rparr>)"

definition array_sort :: "(task \<Rightarrow> task \<Rightarrow> int) \<Rightarrow> nat \<Rightarrow> world \<Rightarrow> world" where
  "array_sort cmp a w = w\<lparr>arrays := (arrays w)[a := js_sort cmp (arrays w ! a)]\<rparr>"

text \<open>
  The body of \<open>sorted.forEach\<close> in \<open>renderLists\<close>: for each task of the sorted copy, its
  first position by id in the original array, and an element when there is one.
\<close>

definition forEach_sorted :: "task list \<Rightarrow> nat \<Rightarrow> bool \<Rightarrow> world \<Rightarrow> element list" where
  "forEach_sorted sortedTasks listArray isSpillover w =
     concat (map (\<lambda>task.
       (case findIndex (\<lambda>t. task_id t = task_id task) (arrays w ! listArray) of
          None \<Rightarrow> []
        | Some originalIndex \<Rightarrow> [createTaskElement task listArray originalIndex isSpillover]))
       sortedTasks)"

definition renderLists :: "nat \<Rightarrow> nat \<Rightarrow> world \<Rightarrow> world" where
  "renderLists todayTasks spilloverTasks w =
     (let w1 = w\<lparr>taskList := [], spilloverList := []\<rparr>;
          (sortedTodayTasks, w2) = array_slice todayTasks w1;
          w3 = array_sort compareCompleted sortedTodayTasks w2;
          w4 = w3\<lparr>taskList := taskList w3 @
                 forEach_sorted (arrays w3 ! sortedTodayTasks) todayTasks False w3\<rparr>;
          (sortedSpilloverTasks, w5) = array_slice spilloverTasks w4;
          w6 = array_sort compareCompleted sortedSpilloverTasks w5
      in if length (arrays w6 ! sortedSpilloverTasks) > 0
         then w6\<lparr>spilloverSection_display := ''block'',
                 spilloverList := spilloverList w6 @
                   forEach_sorted (arrays w6 ! sortedSpilloverTasks) spilloverTasks True w6\<rparr>
         else w6\<lparr>spilloverSection_display := ''none''\<rparr>)"

text \<open>\<^verbatim>\<open>popup.js\<close> renders each array as it is, every element with its own position.\<close>

definition forEach_indexed :: "task list \<Rightarrow> nat \<Rightarrow> bool \<Rightarrow> element list" where
  "forEach_indexed xs listArray isSpillover =
     map (\<lambda>(index, task). createTaskElement task listArray index isSpillover) (enumerate 0 xs)"

definition renderLists_popup :: "nat \<Rightarrow> nat \<Rightarrow> world \<Rightarrow> world" where
  "renderLists_popup todayTasks spilloverTasks w =
     (let w1 = w\<lparr>taskList := [], spilloverList := []\<rparr>;
          w2 = w1\<lparr>taskList := taskList w1 @
                 forEach_indexed (arrays w1 ! todayTasks) todayTasks False\<rparr>
      in if length (arrays w2 ! spilloverTasks) > 0
         then w2\<lparr>spilloverSection_display := ''block'',
                 spilloverList := spilloverList w2 @
                   forEach_indexed (arrays w2 ! spilloverTasks) spilloverTasks True\<rparr>
         else w2\<lparr>spilloverSection_display := ''none''\<rparr>)"

text \<open>
  Deleting by id, as the page offers it: the user presses the delete button of the item
  of the chosen list that shows a task with the id. When no item shows such a task there
  is no button to press.
\<close>

definition deleteTask :: "bool \<Rightarrow> int option \<Rightarrow> world \<Rightarrow> world" where
  "deleteTask isSpillover taskId w =
     (case find (\<lambda>e. task_id (cl_task e) = taskId)
             (if isSpillover then spilloverList w else taskList w) of
        None \<Rightarrow> w
      | Some e \<Rightarrow> deleteBtn_click e w)"

section \<open>Adding a task\<close>

text \<open>
  \<open>String.prototype.trim\<close> removes white space and line terminators from both ends.
  A \<open>char\<close> is a code unit below 256; the white space in that range is listed.
\<close>

definition isWhiteSpace :: "char \<Rightarrow> bool" where
  "isWhiteSpace c =
     (c \<in> {CHR 0x09, CHR 0x0A, CHR 0x0B, CHR 0x0C, CHR 0x0D, CHR 0x20, CHR 0xA0})"

definition trim :: "string \<Rightarrow> string" where
  "trim s = rev (dropWhile isWhiteSpace (rev (dropWhile isWhiteSpace s)))"

text \<open>
  \<open>addTask()\<close>. \<open>Date.now()\<close> is the parameter \<open>now\<close>; the text typed by the user is
  \<open>taskInput_value\<close>. \<open>tasks.push\<close> throws a TypeError when the stored value is not an
  array. The result is the state when the promise of \<open>addTask\<close> settles.
\<close>

definition addTask :: "int \<Rightarrow> world \<Rightarrow> (error + unit) \<times> world" where
  "addTask now w =
     (let text = trim (taskInput_value w) in
      if text \<noteq> [] then
        (case getData TODAY_TASKS_KEY (store w) of
           JArray tasks \<Rightarrow>
             (let newTask = \<lparr>task_id = Some now, task_text = text, completed = False\<rparr>;
                  tasks' = tasks @ [newTask];
                  w1 = w\<lparr>store := saveData [(TODAY_TASKS_KEY, JArray tasks')] (store w)\<rparr>;
                  w2 = w1\<lparr>taskInput_value := []\<rparr>
              in (Inr (), w2\<lparr>initializeCalls := Suc (initializeCalls w2)\<rparr>))
         | _ \<Rightarrow> (Inl TypeError, w))
      else (Inr (), w))"

definition addTask_popup :: "world \<Rightarrow> (error + unit) \<times> world" where
  "addTask_popup w =
     (let text = trim (taskInput_value w) in
      if text \<noteq> [] then
        (case js_or (getData_popup TODAY_TASKS_KEY (store w)) (JArray []) of
           JArray tasks \<Rightarrow>
             (let newTask = \<lparr>task_id = None, task_text = text, completed = False\<rparr>;
                  tasks' = tasks @ [newTask];
                  w1 = w\<lparr>store := saveData [(TODAY_TASKS_KEY, JArray tasks')] (store w)\<rparr>;
                  w2 = w1\<lparr>taskInput_value := []\<rparr>
              in (Inr (), w2\<lparr>initializeCalls := Suc (initializeCalls w2)\<rparr>))
         | _ \<Rightarrow> (Inl TypeError, w))
      else (Inr (), w))"

section \<open>Example states\<close>

text \<open>
  A today-list with completed tasks at positions 0 and 2, a spillover task from an
  earlier day, stores with and without a last-open date, a popup that holds the two
  lists in memory, and the popup as its first load on 2024-05-02 leaves it: both lists
  empty and the date saved, which is the earliest state in which the add button works.
\<close>

definition task1 :: task where
  "task1 = \<lparr>task_id = Some 1, task_text = ''water plants'', completed = True\<rparr>"

definition task2 :: task where
  "task2 = \<lparr>task_id = Some 2, task_text = ''call bank'', completed = False\<rparr>"

definition task3 :: task where
  "task3 = \<lparr>task_id = Some 3, task_text = ''post letter'', completed = True\<rparr>"

definition task4 :: task where
  "task4 = \<lparr>task_id = Some 4, task_text = ''book train'', completed = False\<rparr>"

definition old_task :: task where
  "old_task = \<lparr>task_id = Some 9, task_text = ''renew pass'', completed = False\<rparr>"

definition yesterday_store :: storage where
  "yesterday_store =
     \<lparr>items = [TODAY_TASKS_KEY \<mapsto> JArray [task1, task2, task4],
               SPILLOVER_TASKS_KEY \<mapsto> JArray [old_task],
               LAST_OPEN_DATE_KEY \<mapsto> JString ''2024-05-01''],
      setCalls = []\<rparr>"

definition undated_store :: storage where
  "undated_store =
     \<lparr>items = [TODAY_TASKS_KEY \<mapsto> JArray [task1, task2],
               SPILLOVER_TASKS_KEY \<mapsto> JArray [old_task]],
      setCalls = []\<rparr>"


definition open_world :: world where
  "open_world =
     \<lparr>arrays = [[task1, task2, task3, task4], [old_task]],
      store = \<lparr>items = [TODAY_TASKS_KEY \<mapsto> JArray [task1, task2, task3, task4],
                        SPILLOVER_TASKS_KEY \<mapsto> JArray [old_task],
                        LAST_OPEN_DATE_KEY \<mapsto> JString ''2024-05-02''],
               setCalls = []\<rparr>,
      taskList = [], spilloverList = [], spilloverSection_display = ''none'',
      taskInput_value = ''  buy milk '', initializeCalls = 0\<rparr>"

section \<open>Facts about the store\<close>

lemma keys_distinct:
  "TODAY_TASKS_KEY \<noteq> SPILLOVER_TASKS_KEY" "SPILLOVER_TASKS_KEY \<noteq> TODAY_TASKS_KEY"
  "TODAY_TASKS_KEY \<noteq> LAST_OPEN_DATE_KEY" "LAST_OPEN_DATE_KEY \<noteq> TODAY_TASKS_KEY"
  "SPILLOVER_TASKS_KEY \<noteq> LAST_OPEN_DATE_KEY" "LAST_OPEN_DATE_KEY \<noteq> SPILLOVER_TASKS_KEY"
  by (simp_all add: TODAY_TASKS_KEY_def SPILLOVER_TASKS_KEY_def LAST_OPEN_DATE_KEY_def)

lemma items_saveData_rollover:
  "items (saveData [(SPILLOVER_TASKS_KEY, a), (TODAY_TASKS_KEY, b), (LAST_OPEN_DATE_KEY, c)] st)
     = (items st)(SPILLOVER_TASKS_KEY \<mapsto> a, TODAY_TASKS_KEY \<mapsto> b, LAST_OPEN_DATE_KEY \<mapsto> c)"
  by (simp add: saveData_def)

lemma items_saveData_single: "items (saveData [(k, v)] st) = (items st)(k \<mapsto> v)"
  by (simp add: saveData_def)

lemma setCalls_saveData: "setCalls (saveData data st) = setCalls st @ [data]"
  by (simp add: saveData_def)

lemma truthy_simps:
  "truthy JUndefined = False" "truthy (JString s) = (s \<noteq> [])" "truthy (JArray xs) = True"
  by (simp_all add: truthy_def)

lemma getData_stored_array: "items st k = Some (JArray xs) \<Longrightarrow> getData k st = JArray xs"
  by (simp add: getData_def js_or_def truthy_def)

lemma getData_absent: "items st k = None \<Longrightarrow> getData k st = JArray []"
  by (simp add: getData_def js_or_def truthy_def)

lemma getData_truthy: "truthy (getData k st)"
  by (simp add: getData_def js_or_def truthy_def)

lemma getData_popup_stored: "items st k = Some v \<Longrightarrow> getData_popup k st = v"
  by (simp add: getData_popup_def)

lemma getData_popup_absent: "items st k = None \<Longrightarrow> getData_popup k st = JUndefined"
  by (simp add: getData_popup_def)

text \<open>The rollover branch, for both revisions: what is returned and what is saved.\<close>

lemma rollover_branch:
  assumes "truthy lastOpenDate" and "lastOpenDate \<noteq> JString todayDate"
  shows "handleDailyRollover todayDate (JArray ts) lastOpenDate st =
           (Inr \<lparr>res_todayTasks = JArray [],
                 res_spilloverTasks = JArray (filter (\<lambda>task. \<not> completed task) ts)\<rparr>,
            saveData [(SPILLOVER_TASKS_KEY, JArray (filter (\<lambda>task. \<not> completed task) ts)),
                      (TODAY_TASKS_KEY, JArray []),
                      (LAST_OPEN_DATE_KEY, JString todayDate)] st)"
  using assms by (simp add: handleDailyRollover_def Let_def)

lemma rollover_branch_popup:
  assumes "truthy lastOpenDate" and "lastOpenDate \<noteq> JString todayDate"
  shows "handleDailyRollover_popup todayDate (JArray ts) lastOpenDate st =
           (Inr \<lparr>res_todayTasks = JArray [],
                 res_spilloverTasks = JArray (filter (\<lambda>task. \<not> completed task) ts)\<rparr>,
            saveData [(SPILLOVER_TASKS_KEY, JArray (filter (\<lambda>task. \<not> completed task) ts)),
                      (TODAY_TASKS_KEY, JArray []),
                      (LAST_OPEN_DATE_KEY, JString todayDate)] st)"
  using assms by (simp add: handleDailyRollover_popup_def Let_def)


lemma first_run_branch:
  "handleDailyRollover todayDate todayTasks JUndefined st =
     (Inr \<lparr>res_todayTasks = todayTasks,
           res_spilloverTasks = getData SPILLOVER_TASKS_KEY st\<rparr>,
      saveData [(LAST_OPEN_DATE_KEY, JString todayDate)] st)"
  by (simp add: handleDailyRollover_def Let_def truthy_simps getData_def
      items_saveData_single keys_distinct)

lemma first_run_branch_popup:
  "handleDailyRollover_popup todayDate todayTasks JUndefined st =
     (Inr \<lparr>res_todayTasks = todayTasks,
           res_spilloverTasks = js_or (getData_popup SPILLOVER_TASKS_KEY st) (JArray [])\<rparr>,
      saveData [(LAST_OPEN_DATE_KEY, JString todayDate)] st)"
  by (simp add: handleDailyRollover_popup_def Let_def truthy_simps getData_popup_def
      items_saveData_single keys_distinct)

lemma same_day_branch:
  "todayDate \<noteq> [] \<Longrightarrow>
   handleDailyRollover todayDate todayTasks (JString todayDate) st =
     (Inr \<lparr>res_todayTasks = todayTasks,
           res_spilloverTasks = getData SPILLOVER_TASKS_KEY st\<rparr>, st)"
  by (simp add: handleDailyRollover_def Let_def truthy_simps)

lemma same_day_branch_popup:
  "todayDate \<noteq> [] \<Longrightarrow>
   handleDailyRollover_popup todayDate todayTasks (JString todayDate) st =
     (Inr \<lparr>res_todayTasks = todayTasks,
           res_spilloverTasks = js_or (getData_popup SPILLOVER_TASKS_KEY st) (JArray [])\<rparr>, st)"
  by (simp add: handleDailyRollover_popup_def Let_def truthy_simps)

text \<open>
  Reconciling from storage a second time on the same date gives the outcome of the first
  time and leaves the store, with its log of \<open>set\<close> calls, as the first time left it.
\<close>

lemma initialize_rollover_twice:
  assumes "todayDate \<noteq> []"
  shows "initialize_rollover todayDate (snd (initialize_rollover todayDate st)) =
           initialize_rollover todayDate st"
proof (cases "getData LAST_OPEN_DATE_KEY st = JString todayDate")
  case True
  then show ?thesis
    using assms by (simp add: initialize_rollover_def same_day_branch)
next
  case False
  have t: "truthy (getData LAST_OPEN_DATE_KEY st)" by (rule getData_truthy)
  show ?thesis
  proof (cases "getData TODAY_TASKS_KEY st")
    case (JArray ts)
    then show ?thesis
      using assms False t
      by (simp add: initialize_rollover_def rollover_branch same_day_branch
          getData_def js_or_def truthy_simps items_saveData_rollover keys_distinct)
  next
    case JUndefined
    then show ?thesis
      using False t by (simp add: initialize_rollover_def handleDailyRollover_def)
  next
    case (JString s)
    then show ?thesis
      using False t by (simp add: initialize_rollover_def handleDailyRollover_def)
  qed
qed

lemma initialize_rollover_popup_twice:
  assumes "todayDate \<noteq> []"
  shows "initialize_rollover_popup todayDate (snd (initialize_rollover_popup todayDate st)) =
           initialize_rollover_popup todayDate st"
proof (cases "getData_popup LAST_OPEN_DATE_KEY st = JString todayDate")
  case True
  then show ?thesis
    using assms by (simp add: initialize_rollover_popup_def same_day_branch_popup)
next
  case False
  note neq = False
  show ?thesis
  proof (cases "truthy (getData_popup LAST_OPEN_DATE_KEY st)")
    case False
    then show ?thesis
      using assms neq
      by (simp add: initialize_rollover_popup_def handleDailyRollover_popup_def Let_def
          getData_popup_def js_or_def truthy_simps items_saveData_single keys_distinct)
  next
    case True
    show ?thesis
    proof (cases "js_or (getData_popup TODAY_TASKS_KEY st) (JArray [])")
      case (JArray ts)
      then show ?thesis
        using assms neq True
        by (simp add: initialize_rollover_popup_def rollover_branch_popup
            same_day_branch_popup getData_popup_def js_or_def truthy_simps
            items_saveData_rollover keys_distinct)
    next
      case JUndefined
      then show ?thesis
        using neq True
        by (simp add: initialize_rollover_popup_def handleDailyRollover_popup_def)
    next
      case (JString s)
      then show ?thesis
        using neq True
        by (simp add: initialize_rollover_popup_def handleDailyRollover_popup_def)
    qed
  qed
qed

text \<open>
  A store without a last-open date, read through \<open>initialize\<close>. In \<^verbatim>\<open>popup.js\<close> the
  missing date arrives as \<open>undefined\<close> and the first-run branch is taken. In
  \<^verbatim>\<open>part_000\<close> \<open>getData\<close> answers a missing key with an empty array, which is truthy and
  differs from every date string, so the rollover branch is taken.
\<close>

lemma initialize_rollover_popup_undated:
  assumes "items st LAST_OPEN_DATE_KEY = None"
    and "items st TODAY_TASKS_KEY = Some (JArray ts)"
  shows "initialize_rollover_popup todayDate st =
     (Inr \<lparr>res_todayTasks = JArray ts,
           res_spilloverTasks = js_or (getData_popup SPILLOVER_TASKS_KEY st) (JArray [])\<rparr>,
      saveData [(LAST_OPEN_DATE_KEY, JString todayDate)] st)"
  using assms
  by (simp add: initialize_rollover_popup_def getData_popup_def js_or_def truthy_simps
      first_run_branch_popup)

lemma initialize_rollover_undated:
  assumes "items st LAST_OPEN_DATE_KEY = None"
    and "items st TODAY_TASKS_KEY = Some (JArray ts)"
  shows "initialize_rollover todayDate st =
     (Inr \<lparr>res_todayTasks = JArray [],
           res_spilloverTasks = JArray (filter (\<lambda>task. \<not> completed task) ts)\<rparr>,
      saveData [(SPILLOVER_TASKS_KEY, JArray (filter (\<lambda>task. \<not> completed task) ts)),
                (TODAY_TASKS_KEY, JArray []),
                (LAST_OPEN_DATE_KEY, JString todayDate)] st)"
  using assms
  by (simp add: initialize_rollover_def getData_absent getData_stored_array rollover_branch
      truthy_simps)

section \<open>Facts about adding\<close>

lemma trim_all_whitespace:
  assumes "\<forall>c \<in> set s. isWhiteSpace c"
  shows "trim s = []"
  using assms by (auto simp: trim_def dest: set_dropWhileD)

lemma addTask_appends:
  assumes "trim (taskInput_value w) \<noteq> []"
    and "getData TODAY_TASKS_KEY (store w) = JArray ts"
  shows "addTask now w =
    (Inr (),
     w\<lparr>store := saveData [(TODAY_TASKS_KEY, JArray (ts @
          [\<lparr>task_id = Some now, task_text = trim (taskInput_value w), completed = False\<rparr>]))]
          (store w),
       taskInput_value := [],
       initializeCalls := Suc (initializeCalls w)\<rparr>)"
  using assms by (simp add: addTask_def Let_def)

lemma addTask_popup_appends:
  assumes "trim (taskInput_value w) \<noteq> []"
    and "js_or (getData_popup TODAY_TASKS_KEY (store w)) (JArray []) = JArray ts"
  shows "addTask_popup w =
    (Inr (),
     w\<lparr>store := saveData [(TODAY_TASKS_KEY, JArray (ts @
          [\<lparr>task_id = None, task_text = trim (taskInput_value w), completed = False\<rparr>]))]
          (store w),
       taskInput_value := [],
       initializeCalls := Suc (initializeCalls w)\<rparr>)"
  using assms by (simp add: addTask_popup_def Let_def)

lemma stored_today_list:
  assumes "items st TODAY_TASKS_KEY = Some (JArray ts) \<or>
           (items st TODAY_TASKS_KEY = None \<and> ts = [])"
  shows "getData TODAY_TASKS_KEY st = JArray ts"
    and "js_or (getData_popup TODAY_TASKS_KEY st) (JArray []) = JArray ts"
  using assms by (auto simp: getData_def getData_popup_def js_or_def truthy_simps)

text \<open>
  When the clock value is not yet an id of the stored list, adding keeps the ids of the
  list distinct.
\<close>

lemma addTask_fresh_id_distinct:
  assumes "trim (taskInput_value w) \<noteq> []"
    and "getData TODAY_TASKS_KEY (store w) = JArray ts"
    and "distinct (map task_id ts)" and "Some now \<notin> task_id ` set ts"
  shows "\<exists>ts'. getData TODAY_TASKS_KEY (store (snd (addTask now w))) = JArray ts' \<and>
           distinct (map task_id ts')"
  using assms
  by (simp add: addTask_appends [OF assms(1,2)] getData_def js_or_def truthy_simps
      items_saveData_single)

section \<open>Facts about sorting and rendering\<close>

lemma insert_sorted_incomplete:
  "\<not> completed x \<Longrightarrow> insert_sorted compareCompleted x ys = x # ys"
  by (cases ys) (simp_all add: compareCompleted_def toNumber_def)

lemma insert_sorted_completed:
  assumes "completed x"
    and "\<forall>y \<in> set as. \<not> completed y"
    and "\<forall>y \<in> set bs. completed y"
  shows "insert_sorted compareCompleted x (as @ bs) = as @ x # bs"
  using assms(2)
proof (induction as)
  case Nil
  show ?case using assms(1,3)
    by (cases bs) (simp_all add: compareCompleted_def toNumber_def)
next
  case (Cons a as)
  then show ?case using assms(1)
    by (simp add: compareCompleted_def toNumber_def)
qed

lemma js_sort_Cons:
  "js_sort cmp (x # xs) = insert_sorted cmp x (js_sort cmp xs)"
  by (simp add: js_sort_def)

lemma js_sort_partition:
  "js_sort compareCompleted xs =
     filter (\<lambda>t. \<not> completed t) xs @ filter completed xs"
proof (induction xs)
  case Nil
  show ?case by (simp add: js_sort_def)
next
  case (Cons x xs)
  show ?case
  proof (cases "completed x")
    case True
    have "js_sort compareCompleted (x # xs) =
        insert_sorted compareCompleted x
          (filter (\<lambda>t. \<not> completed t) xs @ filter completed xs)"
      by (simp only: js_sort_Cons Cons.IH)
    also have "\<dots> = filter (\<lambda>t. \<not> completed t) xs @ x # filter completed xs"
      by (rule insert_sorted_completed) (use True in simp_all)
    finally show ?thesis using True by simp
  next
    case False
    have "js_sort compareCompleted (x # xs) =
        insert_sorted compareCompleted x
          (filter (\<lambda>t. \<not> completed t) xs @ filter completed xs)"
      by (simp only: js_sort_Cons Cons.IH)
    also have "\<dots> = x # filter (\<lambda>t. \<not> completed t) xs @ filter completed xs"
      using False by (rule insert_sorted_incomplete)
    finally show ?thesis using False by simp
  qed
qed

lemma findIndex_Some:
  "findIndex p xs = Some i \<Longrightarrow> i < length xs \<and> p (xs ! i) \<and> (\<forall>j<i. \<not> p (xs ! j))"
proof (induction xs arbitrary: i)
  case Nil
  then show ?case by simp
next
  case (Cons x xs)
  show ?case
  proof (cases "p x")
    case True
    with Cons.prems show ?thesis by simp
  next
    case False
    with Cons.prems obtain k where k: "findIndex p xs = Some k" "i = Suc k"
      by auto
    from Cons.IH [OF k(1)] have ih: "k < length xs" "p (xs ! k)" "\<forall>j<k. \<not> p (xs ! j)"
      by simp_all
    have "\<not> p ((x # xs) ! j)" if "j < i" for j
    proof (cases j)
      case 0
      with False show ?thesis by simp
    next
      case (Suc m)
      with that k(2) ih(3) show ?thesis by simp
    qed
    with ih(1,2) k(2) show ?thesis by simp
  qed
qed

lemma findIndex_None: "findIndex p xs = None \<longleftrightarrow> (\<forall>x \<in> set xs. \<not> p x)"
  by (induction xs) auto



lemma renderLists_arrays:
  assumes "a < length (arrays w)" and "b < length (arrays w)"
  shows "arrays (renderLists a b w) =
     arrays w @ [js_sort compareCompleted (arrays w ! a), js_sort compareCompleted (arrays w ! b)]"
  using assms
  by (simp add: renderLists_def array_slice_def array_sort_def Let_def nth_append
      list_update_append)

lemma renderLists_store: "store (renderLists a b w) = store w"
  by (simp add: renderLists_def array_slice_def array_sort_def Let_def)

lemma renderLists_taskList:
  assumes "a < length (arrays w)" and "b < length (arrays w)"
  shows "taskList (renderLists a b w) =
     forEach_sorted (js_sort compareCompleted (arrays w ! a)) a False w"
  using assms
  by (simp add: renderLists_def array_slice_def array_sort_def Let_def nth_append
      list_update_append forEach_sorted_def)

lemma renderLists_spilloverList:
  assumes "a < length (arrays w)" and "b < length (arrays w)"
  shows "spilloverList (renderLists a b w) =
     forEach_sorted (js_sort compareCompleted (arrays w ! b)) b True w"
  using assms
  by (simp add: renderLists_def array_slice_def array_sort_def Let_def nth_append
      list_update_append forEach_sorted_def js_sort_def)



lemma set_js_sort_compareCompleted: "set (js_sort compareCompleted xs) = set xs"
  by (auto simp: js_sort_partition)

lemma forEach_sorted_Nil: "forEach_sorted [] a sp w = []"
  by (simp add: forEach_sorted_def)

lemma forEach_sorted_Cons:
  "forEach_sorted (s # ss) a sp w =
     (case findIndex (\<lambda>t. task_id t = task_id s) (arrays w ! a) of
        None \<Rightarrow> []
      | Some i \<Rightarrow> [createTaskElement s a i sp]) @ forEach_sorted ss a sp w"
  by (simp add: forEach_sorted_def)

text \<open>Every task of the array is found again by its id, so every task gets an element.\<close>

lemma forEach_sorted_tasks:
  "set ss \<subseteq> set (arrays w ! a) \<Longrightarrow> map cl_task (forEach_sorted ss a sp w) = ss"
proof (induction ss)
  case Nil
  show ?case by (simp add: forEach_sorted_Nil)
next
  case (Cons s ss)
  from Cons.prems have "s \<in> set (arrays w ! a)" by simp
  then have "findIndex (\<lambda>t. task_id t = task_id s) (arrays w ! a) \<noteq> None"
    by (auto simp: findIndex_None)
  then obtain i where "findIndex (\<lambda>t. task_id t = task_id s) (arrays w ! a) = Some i"
    by auto
  with Cons show ?case
    by (simp add: forEach_sorted_Cons createTaskElement_def)
qed

lemma forEach_sorted_element:
  "e \<in> set (forEach_sorted ss a sp w) \<Longrightarrow>
     cl_listArray e = a \<and> cl_isSpillover e = sp \<and>
     findIndex (\<lambda>t. task_id t = task_id (cl_task e)) (arrays w ! a) = Some (cl_index e)"
proof (induction ss)
  case Nil
  then show ?case by (simp add: forEach_sorted_Nil)
next
  case (Cons s ss)
  then show ?case
    by (auto simp: forEach_sorted_Cons createTaskElement_def split: option.splits)
qed

lemma deleteBtn_click_effect:
  assumes "cl_listArray e < length (arrays w)"
  shows "arrays (deleteBtn_click e w) ! cl_listArray e =
           js_splice (cl_index e) 1 (arrays w ! cl_listArray e)"
    and "store (deleteBtn_click e w) =
           saveData [(if cl_isSpillover e then SPILLOVER_TASKS_KEY else TODAY_TASKS_KEY,
                      JArray (js_splice (cl_index e) 1 (arrays w ! cl_listArray e)))] (store w)"
  using assms by (simp_all add: deleteBtn_click_def Let_def)

lemma renderLists_elements:
  assumes "a < length (arrays w)" and "b < length (arrays w)"
  shows "(if sp then spilloverList (renderLists a b w) else taskList (renderLists a b w)) =
     forEach_sorted (js_sort compareCompleted (arrays w ! (if sp then b else a)))
       (if sp then b else a) sp w"
  using assms by (simp add: renderLists_taskList renderLists_spilloverList)

lemma renderLists_keeps_cells:
  assumes "a < length (arrays w)" and "b < length (arrays w)" and "r < length (arrays w)"
  shows "arrays (renderLists a b w) ! r = arrays w ! r"
  using assms by (simp add: renderLists_arrays nth_append)

lemma length_renderLists_arrays:
  assumes "a < length (arrays w)" and "b < length (arrays w)"
  shows "length (arrays (renderLists a b w)) = length (arrays w) + 2"
  using assms by (simp add: renderLists_arrays)

text \<open>\<^verbatim>\<open>popup.js\<close> shows the today-list in its stored order.\<close>

lemma renderLists_popup_order:
  "map cl_task (taskList (renderLists_popup a b w)) = arrays w ! a"
proof -
  have "map cl_task (forEach_indexed xs a False) = xs" for xs
    by (simp add: forEach_indexed_def createTaskElement_def split_beta o_def
        enumerate_eq_zip)
  then show ?thesis
    by (simp add: renderLists_popup_def Let_def)
qed

section \<open>The claims about the rollover\<close>

text \<open>
  C1. When the last-open date is present and differs from the current date,
  \<open>handleDailyRollover\<close> returns and saves, in one \<open>set\<close> call, a spillover list that is
  exactly the incomplete tasks of the today-list in their order (whatever the spillover
  list was before, and without the completed tasks), an empty today-list, and the
  current date as last-open date. A date string is never empty. Both revisions.
\<close>

theorem rollover_replaces_spillover:
  assumes "d \<noteq> []" and "d \<noteq> todayDate"
  shows "(let (r, st') = handleDailyRollover todayDate (JArray ts) (JString d) st;
              unfinished = filter (\<lambda>t. \<not> completed t) ts
          in r = Inr \<lparr>res_todayTasks = JArray [], res_spilloverTasks = JArray unfinished\<rparr> \<and>
             items st' = (items st)
               (SPILLOVER_TASKS_KEY \<mapsto> JArray unfinished,
                TODAY_TASKS_KEY \<mapsto> JArray [],
                LAST_OPEN_DATE_KEY \<mapsto> JString todayDate) \<and>
             setCalls st' = setCalls st @
               [[(SPILLOVER_TASKS_KEY, JArray unfinished), (TODAY_TASKS_KEY, JArray []),
                 (LAST_OPEN_DATE_KEY, JString todayDate)]]) \<and>
         (let (r, st') = handleDailyRollover_popup todayDate (JArray ts) (JString d) st;
              unfinished = filter (\<lambda>t. \<not> completed t) ts
          in r = Inr \<lparr>res_todayTasks = JArray [], res_spilloverTasks = JArray unfinished\<rparr> \<and>
             items st' = (items st)
               (SPILLOVER_TASKS_KEY \<mapsto> JArray unfinished,
                TODAY_TASKS_KEY \<mapsto> JArray [],
                LAST_OPEN_DATE_KEY \<mapsto> JString todayDate) \<and>
             setCalls st' = setCalls st @
               [[(SPILLOVER_TASKS_KEY, JArray unfinished), (TODAY_TASKS_KEY, JArray []),
                 (LAST_OPEN_DATE_KEY, JString todayDate)]])"
proof -
  have t: "truthy (JString d)" and n: "JString d \<noteq> JString todayDate"
    using assms by (simp_all add: truthy_simps)
  show ?thesis
    by (simp add: rollover_branch [OF t n] rollover_branch_popup [OF t n]
        items_saveData_rollover setCalls_saveData)
qed

theorem rollover_replaces_spillover_witness:
  "''2024-05-01'' \<noteq> [] \<and> ''2024-05-01'' \<noteq> ''2024-05-02'' \<and>
   fst (handleDailyRollover ''2024-05-02'' (JArray [task1, task2, task4])
          (JString ''2024-05-01'') yesterday_store) =
     Inr \<lparr>res_todayTasks = JArray [], res_spilloverTasks = JArray [task2, task4]\<rparr> \<and>
   items (snd (handleDailyRollover ''2024-05-02'' (JArray [task1, task2, task4])
          (JString ''2024-05-01'') yesterday_store)) SPILLOVER_TASKS_KEY =
     Some (JArray [task2, task4]) \<and>
   items (snd (handleDailyRollover ''2024-05-02'' (JArray [task1, task2, task4])
          (JString ''2024-05-01'') yesterday_store)) TODAY_TASKS_KEY = Some (JArray []) \<and>
   items (snd (handleDailyRollover ''2024-05-02'' (JArray [task1, task2, task4])
          (JString ''2024-05-01'') yesterday_store)) LAST_OPEN_DATE_KEY =
     Some (JString ''2024-05-02'')"
  using rollover_replaces_spillover
    [of "''2024-05-01''" "''2024-05-02''" "[task1, task2, task4]" yesterday_store]
  by (simp add: split_beta Let_def keys_distinct task1_def task2_def task4_def)

text \<open>
  C2. When the last-open date handed to \<open>handleDailyRollover\<close> is absent
  (\<open>undefined\<close>), the call saves the current date as last-open date and nothing else, so
  the stored today-list and spillover list stay as they are, and it returns the
  today-list it was given together with the stored spillover list, or the empty list
  when none is stored. Both revisions.
\<close>

theorem first_run_keeps_lists:
  "(let (r, st') = handleDailyRollover todayDate (JArray ts) JUndefined st in
      (\<exists>sp. r = Inr \<lparr>res_todayTasks = JArray ts, res_spilloverTasks = sp\<rparr> \<and>
         (items st SPILLOVER_TASKS_KEY = None \<longrightarrow> sp = JArray []) \<and>
         (\<forall>ss. items st SPILLOVER_TASKS_KEY = Some (JArray ss) \<longrightarrow> sp = JArray ss)) \<and>
      items st' = (items st)(LAST_OPEN_DATE_KEY \<mapsto> JString todayDate) \<and>
      setCalls st' = setCalls st @ [[(LAST_OPEN_DATE_KEY, JString todayDate)]]) \<and>
   (let (r, st') = handleDailyRollover_popup todayDate (JArray ts) JUndefined st in
      (\<exists>sp. r = Inr \<lparr>res_todayTasks = JArray ts, res_spilloverTasks = sp\<rparr> \<and>
         (items st SPILLOVER_TASKS_KEY = None \<longrightarrow> sp = JArray []) \<and>
         (\<forall>ss. items st SPILLOVER_TASKS_KEY = Some (JArray ss) \<longrightarrow> sp = JArray ss)) \<and>
      items st' = (items st)(LAST_OPEN_DATE_KEY \<mapsto> JString todayDate) \<and>
      setCalls st' = setCalls st @ [[(LAST_OPEN_DATE_KEY, JString todayDate)]])"
  by (simp add: first_run_branch first_run_branch_popup items_saveData_single
      setCalls_saveData getData_absent getData_stored_array getData_popup_absent
      getData_popup_stored js_or_def truthy_simps)

theorem first_run_keeps_lists_witness:
  "fst (handleDailyRollover ''2024-05-02'' (JArray [task1, task2]) JUndefined undated_store) =
     Inr \<lparr>res_todayTasks = JArray [task1, task2], res_spilloverTasks = JArray [old_task]\<rparr> \<and>
   items (snd (handleDailyRollover ''2024-05-02'' (JArray [task1, task2]) JUndefined
          undated_store)) TODAY_TASKS_KEY = Some (JArray [task1, task2]) \<and>
   items (snd (handleDailyRollover ''2024-05-02'' (JArray [task1, task2]) JUndefined
          undated_store)) SPILLOVER_TASKS_KEY = Some (JArray [old_task]) \<and>
   items (snd (handleDailyRollover ''2024-05-02'' (JArray [task1, task2]) JUndefined
          undated_store)) LAST_OPEN_DATE_KEY = Some (JString ''2024-05-02'')"
  using first_run_keeps_lists [of "''2024-05-02''" "[task1, task2]" undated_store]
  by (auto simp: split_beta undated_store_def keys_distinct)

text \<open>
  C3. For every store and a fixed current date, reconciling twice in a row from storage
  changes the store in the first call at most: the second call returns what the first
  returned and leaves the store, with its log of \<open>set\<close> calls, untouched. The current
  date, as \<open>getTodayDateString\<close> makes it, is not the empty string. Both revisions.
\<close>

theorem reconcile_twice_is_idempotent:
  assumes "todayDate \<noteq> []"
  shows "(let (r1, st1) = initialize_rollover todayDate st;
              (r2, st2) = initialize_rollover todayDate st1
          in r2 = r1 \<and> st2 = st1) \<and>
         (let (r1, st1) = initialize_rollover_popup todayDate st;
              (r2, st2) = initialize_rollover_popup todayDate st1
          in r2 = r1 \<and> st2 = st1)"
  using initialize_rollover_twice [OF assms, of st]
    initialize_rollover_popup_twice [OF assms, of st]
  by (simp add: split_beta)

theorem reconcile_twice_is_idempotent_witness:
  "''2024-05-02'' \<noteq> [] \<and>
   fst (initialize_rollover ''2024-05-02'' yesterday_store) =
     Inr \<lparr>res_todayTasks = JArray [], res_spilloverTasks = JArray [task2, task4]\<rparr> \<and>
   initialize_rollover ''2024-05-02'' (snd (initialize_rollover ''2024-05-02'' yesterday_store)) =
     initialize_rollover ''2024-05-02'' yesterday_store \<and>
   length (setCalls (snd (initialize_rollover ''2024-05-02''
     (snd (initialize_rollover ''2024-05-02'' yesterday_store))))) = 1"
proof -
  have h: "''2024-05-02'' \<noteq> ([] :: string)" by simp
  have v: "initialize_rollover ''2024-05-02'' yesterday_store =
      (Inr \<lparr>res_todayTasks = JArray [], res_spilloverTasks = JArray [task2, task4]\<rparr>,
       saveData [(SPILLOVER_TASKS_KEY, JArray [task2, task4]), (TODAY_TASKS_KEY, JArray []),
                 (LAST_OPEN_DATE_KEY, JString ''2024-05-02'')] yesterday_store)"
    by (simp add: initialize_rollover_def getData_def js_or_def truthy_simps yesterday_store_def
        keys_distinct handleDailyRollover_def Let_def task1_def task2_def task4_def)
  have s: "setCalls yesterday_store = []" by (simp add: yesterday_store_def)
  show ?thesis
    using h reconcile_twice_is_idempotent [OF h, of yesterday_store]
    by (simp add: split_beta v setCalls_saveData s prod_eq_iff)
qed

text \<open>
  C10. Whenever \<open>handleDailyRollover\<close> takes the rollover branch, every task of the
  spillover list it returns and saves is incomplete and is one of the task records of
  the today-list it was given, with its fields as they were. Both revisions.
\<close>

theorem rollover_keeps_records:
  assumes "truthy lastOpenDate" and "lastOpenDate \<noteq> JString todayDate"
  shows "(let (r, st') = handleDailyRollover todayDate (JArray ts) lastOpenDate st in
            \<exists>us. r = Inr \<lparr>res_todayTasks = JArray [], res_spilloverTasks = JArray us\<rparr> \<and>
              items st' SPILLOVER_TASKS_KEY = Some (JArray us) \<and>
              (\<forall>u \<in> set us. \<not> completed u \<and> u \<in> set ts)) \<and>
         (let (r, st') = handleDailyRollover_popup todayDate (JArray ts) lastOpenDate st in
            \<exists>us. r = Inr \<lparr>res_todayTasks = JArray [], res_spilloverTasks = JArray us\<rparr> \<and>
              items st' SPILLOVER_TASKS_KEY = Some (JArray us) \<and>
              (\<forall>u \<in> set us. \<not> completed u \<and> u \<in> set ts))"
  by (simp add: rollover_branch [OF assms] rollover_branch_popup [OF assms]
      items_saveData_rollover keys_distinct)

theorem rollover_keeps_records_witness:
  "truthy (JString ''2024-05-01'') \<and> JString ''2024-05-01'' \<noteq> JString ''2024-05-02'' \<and>
   fst (handleDailyRollover ''2024-05-02'' (JArray [task1, task2, task3, task4])
          (JString ''2024-05-01'') yesterday_store) =
     Inr \<lparr>res_todayTasks = JArray [],
          res_spilloverTasks = JArray
            [\<lparr>task_id = Some 2, task_text = ''call bank'', completed = False\<rparr>,
             \<lparr>task_id = Some 4, task_text = ''book train'', completed = False\<rparr>]\<rparr>"
proof -
  have t: "truthy (JString ''2024-05-01'')" by (simp add: truthy_simps)
  have n: "JString ''2024-05-01'' \<noteq> JString ''2024-05-02''" by simp
  have v: "fst (handleDailyRollover ''2024-05-02'' (JArray [task1, task2, task3, task4])
          (JString ''2024-05-01'') yesterday_store) =
     Inr \<lparr>res_todayTasks = JArray [],
          res_spilloverTasks = JArray
            [\<lparr>task_id = Some 2, task_text = ''call bank'', completed = False\<rparr>,
             \<lparr>task_id = Some 4, task_text = ''book train'', completed = False\<rparr>]\<rparr>"
    by (simp add: rollover_branch [OF t n] task1_def task2_def task3_def task4_def)
  show ?thesis
    using rollover_keeps_records [OF t n, of "[task1, task2, task3, task4]" yesterday_store]
    apply -
    apply (intro conjI)
      apply (rule t)
     apply (rule n)
    apply (rule v)
    done
qed

section \<open>The claims about adding a task\<close>

text \<open>
  C5. When the typed text is empty or consists of white space only, \<open>addTask\<close> creates
  no task and writes nothing: it returns without an error and the whole state, the store
  with its log of \<open>set\<close> calls included, is as before. Both revisions.
\<close>

theorem blank_input_is_ignored:
  assumes "\<forall>c \<in> set (taskInput_value w). isWhiteSpace c"
  shows "addTask now w = (Inr (), w) \<and> addTask_popup w = (Inr (), w)"
  using trim_all_whitespace [OF assms] by (simp add: addTask_def addTask_popup_def)

theorem blank_input_is_ignored_witness:
  "isWhiteSpace CHR '' '' \<and> isWhiteSpace (CHR 0x09) \<and>
   addTask 1000 (open_world\<lparr>taskInput_value := [CHR '' '', CHR 0x09, CHR '' '']\<rparr>) =
     (Inr (), open_world\<lparr>taskInput_value := [CHR '' '', CHR 0x09, CHR '' '']\<rparr>) \<and>
   addTask 1000 (open_world\<lparr>taskInput_value := []\<rparr>) =
     (Inr (), open_world\<lparr>taskInput_value := []\<rparr>)"
proof -
  have ws: "isWhiteSpace CHR '' ''" "isWhiteSpace (CHR 0x09)"
    by (simp_all add: isWhiteSpace_def)
  have a: "\<forall>c \<in> set (taskInput_value
      (open_world\<lparr>taskInput_value := [CHR '' '', CHR 0x09, CHR '' '']\<rparr>)). isWhiteSpace c"
    using ws by simp
  have b: "\<forall>c \<in> set (taskInput_value (open_world\<lparr>taskInput_value := []\<rparr>)). isWhiteSpace c"
    by simp
  show ?thesis
    using ws blank_input_is_ignored [OF a, of 1000] blank_input_is_ignored [OF b, of 1000]
    by simp
qed

text \<open>
  C6. When the trimmed text is not empty and the store holds the today-list \<open>ts\<close> (or
  none, for the empty list), \<open>addTask\<close> makes one \<open>set\<close> call, which stores under the
  today key the list \<open>ts\<close> followed by one new task: not completed, its text the
  trimmed input. The list is one longer, the tasks of \<open>ts\<close> keep their values and order,
  and no other key, the spillover list in particular, is written. Both revisions; the new
  task has the clock value as id in the one and no id in the other.
\<close>

theorem add_appends_one_task:
  assumes "trim (taskInput_value w) \<noteq> []"
    and "items (store w) TODAY_TASKS_KEY = Some (JArray ts) \<or>
         (items (store w) TODAY_TASKS_KEY = None \<and> ts = [])"
  shows "(let (r, w') = addTask now w;
              new = \<lparr>task_id = Some now, task_text = trim (taskInput_value w), completed = False\<rparr>
          in r = Inr () \<and>
             items (store w') = (items (store w))(TODAY_TASKS_KEY \<mapsto> JArray (ts @ [new])) \<and>
             setCalls (store w') = setCalls (store w) @ [[(TODAY_TASKS_KEY, JArray (ts @ [new]))]] \<and>
             length (ts @ [new]) = Suc (length ts)) \<and>
         (let (r, w') = addTask_popup w;
              new = \<lparr>task_id = None, task_text = trim (taskInput_value w), completed = False\<rparr>
          in r = Inr () \<and>
             items (store w') = (items (store w))(TODAY_TASKS_KEY \<mapsto> JArray (ts @ [new])) \<and>
             setCalls (store w') = setCalls (store w) @ [[(TODAY_TASKS_KEY, JArray (ts @ [new]))]] \<and>
             length (ts @ [new]) = Suc (length ts))"
  using addTask_appends [OF assms(1) stored_today_list(1) [OF assms(2)], of now]
    addTask_popup_appends [OF assms(1) stored_today_list(2) [OF assms(2)]]
  by (simp add: items_saveData_single setCalls_saveData)

theorem add_appends_one_task_witness:
  "trim (taskInput_value open_world) = ''buy milk'' \<and>
   items (store open_world) TODAY_TASKS_KEY = Some (JArray [task1, task2, task3, task4]) \<and>
   fst (addTask 1000 open_world) = Inr () \<and>
   items (store (snd (addTask 1000 open_world))) TODAY_TASKS_KEY =
     Some (JArray [task1, task2, task3, task4,
       \<lparr>task_id = Some 1000, task_text = ''buy milk'', completed = False\<rparr>]) \<and>
   items (store (snd (addTask 1000 open_world))) SPILLOVER_TASKS_KEY =
     Some (JArray [old_task]) \<and>
   length (setCalls (store (snd (addTask 1000 open_world)))) = 1"
proof -
  have tr: "trim (taskInput_value open_world) = ''buy milk''"
    by (simp add: open_world_def trim_def isWhiteSpace_def)
  have ne: "trim (taskInput_value open_world) \<noteq> []" by (simp add: tr)
  have it: "items (store open_world) TODAY_TASKS_KEY = Some (JArray [task1, task2, task3, task4])"
    "items (store open_world) SPILLOVER_TASKS_KEY = Some (JArray [old_task])"
    "setCalls (store open_world) = []"
    by (simp_all add: open_world_def keys_distinct)
  have st: "items (store open_world) TODAY_TASKS_KEY = Some (JArray [task1, task2, task3, task4]) \<or>
      (items (store open_world) TODAY_TASKS_KEY = None \<and> [task1, task2, task3, task4] = [])"
    by (simp add: it)
  show ?thesis
    using add_appends_one_task [OF ne st, of 1000]
    by (simp add: split_beta Let_def tr it keys_distinct)
qed


section \<open>The claims about rendering and deleting\<close>

text \<open>
  C4. The order in which \<open>renderLists\<close> shows a list is a stable partition of the
  array: first the incomplete tasks, then the completed ones, each group in the order of
  the array. For the array with ids 1 (completed), 2, 3 (completed), 4 the order shown is
  2, 4, 1, 3. Holds for the today-list and for the spillover list.
\<close>

theorem display_is_stable_partition:
  assumes "a < length (arrays w)" and "b < length (arrays w)"
  shows "map cl_task (taskList (renderLists a b w)) =
           filter (\<lambda>t. \<not> completed t) (arrays w ! a) @ filter completed (arrays w ! a) \<and>
         map cl_task (spilloverList (renderLists a b w)) =
           filter (\<lambda>t. \<not> completed t) (arrays w ! b) @ filter completed (arrays w ! b)"
proof -
  have "map cl_task (forEach_sorted (js_sort compareCompleted (arrays w ! r)) r sp w) =
      js_sort compareCompleted (arrays w ! r)" for r sp
    by (rule forEach_sorted_tasks) (simp add: set_js_sort_compareCompleted)
  then show ?thesis
    using assms
    by (simp add: renderLists_taskList renderLists_spilloverList js_sort_partition)
qed

theorem display_is_stable_partition_witness:
  "0 < length (arrays open_world) \<and> 1 < length (arrays open_world) \<and>
   arrays open_world ! 0 = [task1, task2, task3, task4] \<and>
   map cl_task (taskList (renderLists 0 1 open_world)) = [task2, task4, task1, task3] \<and>
   map task_id [task2, task4, task1, task3] = [Some 2, Some 4, Some 1, Some 3]"
proof -
  have a: "0 < length (arrays open_world)" and b: "1 < length (arrays open_world)"
    by (simp_all add: open_world_def)
  have c: "arrays open_world ! 0 = [task1, task2, task3, task4]"
    by (simp add: open_world_def)
  have d: "completed task1" "\<not> completed task2" "completed task3" "\<not> completed task4"
    by (simp_all add: task1_def task2_def task3_def task4_def)
  have e: "map task_id [task2, task4, task1, task3] = [Some 2, Some 4, Some 1, Some 3]"
    by (simp add: task1_def task2_def task3_def task4_def)
  show ?thesis
    using display_is_stable_partition [OF a b] a b e
    by (simp add: c d)
qed

text \<open>
  C9. \<open>renderLists\<close> sorts copies: after it has run, the today array and the spillover
  array it was given hold the same tasks in the same order as before, and the store is
  the one from before, so nothing that is later saved from these arrays carries the
  display order.
\<close>

theorem render_keeps_lists:
  assumes "a < length (arrays w)" and "b < length (arrays w)"
  shows "arrays (renderLists a b w) ! a = arrays w ! a \<and>
         arrays (renderLists a b w) ! b = arrays w ! b \<and>
         store (renderLists a b w) = store w"
  using assms by (simp add: renderLists_keeps_cells renderLists_store)

theorem render_keeps_lists_witness:
  "0 < length (arrays open_world) \<and> 1 < length (arrays open_world) \<and>
   arrays (renderLists 0 1 open_world) ! 0 = [task1, task2, task3, task4] \<and>
   arrays (renderLists 0 1 open_world) ! 1 = [old_task] \<and>
   arrays (renderLists 0 1 open_world) ! 2 = [task2, task4, task1, task3] \<and>
   store (renderLists 0 1 open_world) = store open_world"
proof -
  have a: "0 < length (arrays open_world)" and b: "1 < length (arrays open_world)"
    by (simp_all add: open_world_def)
  have c: "arrays open_world ! 0 = [task1, task2, task3, task4]"
    "arrays open_world ! 1 = [old_task]" "length (arrays open_world) = 2"
    by (simp_all add: open_world_def)
  have d: "completed task1" "\<not> completed task2" "completed task3" "\<not> completed task4"
    by (simp_all add: task1_def task2_def task3_def task4_def)
  have s: "arrays (renderLists 0 1 open_world) ! 2 = [task2, task4, task1, task3]"
    by (simp add: renderLists_arrays [OF a b, unfolded One_nat_def] nth_append
        c [unfolded One_nat_def] d js_sort_partition)
  show ?thesis
    using render_keeps_lists [OF a b] a b s
    by (simp add: c [unfolded One_nat_def])
qed

text \<open>
  C7. Deleting by id from a rendered list, today or spillover: when a task of the list
  has the id, the array afterwards is the array before without one position, the first
  that held a task with that id, every other task being where it was relative to the
  others, and this array is saved under the key of the list in one \<open>set\<close> call; when no
  task has the id, array and store stay as they are.
\<close>

theorem delete_removes_one_task:
  assumes "a < length (arrays w)" and "b < length (arrays w)"
  shows "(let listArray = (if sp then b else a);
              key = (if sp then SPILLOVER_TASKS_KEY else TODAY_TASKS_KEY);
              xs = arrays w ! listArray;
              w' = deleteTask sp taskId (renderLists a b w);
              ys = arrays w' ! listArray
          in (taskId \<in> task_id ` set xs \<longrightarrow>
                (\<exists>i<length xs. task_id (xs ! i) = taskId \<and>
                   (\<forall>j<i. task_id (xs ! j) \<noteq> taskId) \<and>
                   ys = take i xs @ drop (Suc i) xs) \<and>
                items (store w') = (items (store w))(key \<mapsto> JArray ys) \<and>
                setCalls (store w') = setCalls (store w) @ [[(key, JArray ys)]]) \<and>
             (taskId \<notin> task_id ` set xs \<longrightarrow> ys = xs \<and> store w' = store w))"
proof -
  define L where "L = (if sp then b else a)"
  define key where "key = (if sp then SPILLOVER_TASKS_KEY else TODAY_TASKS_KEY)"
  define xs where "xs = arrays w ! L"
  define w1 where "w1 = renderLists a b w"
  define els where "els = (if sp then spilloverList w1 else taskList w1)"
  have L: "L < length (arrays w)" using assms by (simp add: L_def)
  have els: "els = forEach_sorted (js_sort compareCompleted xs) L sp w"
    unfolding els_def w1_def xs_def L_def by (rule renderLists_elements [OF assms])
  have tasks: "map cl_task els = js_sort compareCompleted xs"
    unfolding els by (rule forEach_sorted_tasks) (simp add: set_js_sort_compareCompleted xs_def)
  have cell: "arrays w1 ! L = xs"
    unfolding w1_def xs_def by (rule renderLists_keeps_cells [OF assms L])
  have len: "L < length (arrays w1)"
    using L length_renderLists_arrays [OF assms] by (simp add: w1_def)
  have st: "store w1 = store w" by (simp add: w1_def renderLists_store)
  have shown: "cl_task ` set els = set xs"
    using tasks by (metis set_map set_js_sort_compareCompleted)
  have dt: "deleteTask sp taskId w1 =
      (case find (\<lambda>e. task_id (cl_task e) = taskId) els of None \<Rightarrow> w1
       | Some e \<Rightarrow> deleteBtn_click e w1)"
    by (simp add: deleteTask_def els_def)
  have present: "(\<exists>i<length xs. task_id (xs ! i) = taskId \<and>
        (\<forall>j<i. task_id (xs ! j) \<noteq> taskId) \<and>
        arrays (deleteTask sp taskId w1) ! L = take i xs @ drop (Suc i) xs) \<and>
      store (deleteTask sp taskId w1) =
        saveData [(key, JArray (arrays (deleteTask sp taskId w1) ! L))] (store w)"
    if "taskId \<in> task_id ` set xs"
  proof -
    from that shown have "\<exists>e \<in> set els. task_id (cl_task e) = taskId"
      by (metis (no_types, lifting) imageE image_eqI)
    then obtain e where f: "find (\<lambda>e. task_id (cl_task e) = taskId) els = Some e"
      by (cases "find (\<lambda>e. task_id (cl_task e) = taskId) els") (auto simp: find_None_iff)
    then have e: "e \<in> set els" "task_id (cl_task e) = taskId"
      by (auto simp: find_Some_iff)
    from forEach_sorted_element [OF e(1) [unfolded els]] e(2)
    have ce: "cl_listArray e = L" "cl_isSpillover e = sp"
      "findIndex (\<lambda>t. task_id t = taskId) (arrays w ! L) = Some (cl_index e)"
      by simp_all
    from findIndex_Some [OF ce(3)] have i: "cl_index e < length xs"
      "task_id (xs ! cl_index e) = taskId" "\<forall>j<cl_index e. task_id (xs ! j) \<noteq> taskId"
      by (simp_all add: xs_def)
    have d: "deleteTask sp taskId w1 = deleteBtn_click e w1" by (simp add: dt f)
    have a1: "arrays (deleteTask sp taskId w1) ! L = js_splice (cl_index e) 1 xs"
      using deleteBtn_click_effect(1) [of e w1] len ce(1) cell by (simp add: d)
    have a2: "store (deleteTask sp taskId w1) =
        saveData [(key, JArray (js_splice (cl_index e) 1 xs))] (store w)"
      using deleteBtn_click_effect(2) [of e w1] len ce(1,2) cell st by (simp add: d key_def)
    show ?thesis using i a1 a2 by (auto simp: js_splice_def)
  qed
  have absent: "arrays (deleteTask sp taskId w1) ! L = xs \<and>
      store (deleteTask sp taskId w1) = store w"
    if "taskId \<notin> task_id ` set xs"
  proof -
    from that shown have "\<not> (\<exists>e \<in> set els. task_id (cl_task e) = taskId)" by force
    then have "find (\<lambda>e. task_id (cl_task e) = taskId) els = None"
      by (simp add: find_None_iff)
    then show ?thesis by (simp add: dt cell st)
  qed
  show ?thesis
    unfolding Let_def L_def [symmetric] key_def [symmetric] xs_def [symmetric] w1_def [symmetric]
    using present absent by (auto simp: items_saveData_single setCalls_saveData)
qed

theorem delete_removes_one_task_witness:
  "0 < length (arrays open_world) \<and> Suc 0 < length (arrays open_world) \<and>
   arrays open_world ! 0 = [task1, task2, task3, task4] \<and>
   arrays (deleteTask False (Some 3) (renderLists 0 (Suc 0) open_world)) ! 0 = [task1, task2, task4] \<and>
   items (store (deleteTask False (Some 3) (renderLists 0 (Suc 0) open_world))) TODAY_TASKS_KEY =
     Some (JArray [task1, task2, task4]) \<and>
   arrays (deleteTask False (Some 7) (renderLists 0 (Suc 0) open_world)) ! 0 =
     [task1, task2, task3, task4] \<and>
   store (deleteTask False (Some 7) (renderLists 0 (Suc 0) open_world)) = store open_world"
proof -
  have a: "0 < length (arrays open_world)" and b: "Suc 0 < length (arrays open_world)"
    by (simp_all add: open_world_def)
  have c: "arrays open_world ! 0 = [task1, task2, task3, task4]"
    by (simp add: open_world_def)
  have ids: "task_id task1 = Some 1" "task_id task2 = Some 2" "task_id task3 = Some 3"
    "task_id task4 = Some 4"
    by (simp_all add: task1_def task2_def task3_def task4_def)
  have d: "completed task1" "\<not> completed task2" "completed task3" "\<not> completed task4"
    by (simp_all add: task1_def task2_def task3_def task4_def)
  have tl: "taskList (renderLists 0 (Suc 0) open_world) =
      [createTaskElement task2 0 (Suc 0) False, createTaskElement task4 0 3 False,
       createTaskElement task1 0 0 False, createTaskElement task3 0 2 False]"
    by (simp add: renderLists_taskList [OF a b] c d ids
        js_sort_partition forEach_sorted_def numeral_2_eq_2 numeral_3_eq_3)
  have cell: "arrays (renderLists 0 (Suc 0) open_world) ! 0 = [task1, task2, task3, task4]"
    by (simp add: renderLists_keeps_cells [OF a b a] c)
  have len: "0 < length (arrays (renderLists 0 (Suc 0) open_world))"
    by (simp add: length_renderLists_arrays [OF a b])
  have present: "deleteTask False (Some 3) (renderLists 0 (Suc 0) open_world) =
      deleteBtn_click (createTaskElement task3 0 2 False) (renderLists 0 (Suc 0) open_world)"
    by (simp add: deleteTask_def tl createTaskElement_def ids)
  have absent: "deleteTask False (Some 7) (renderLists 0 (Suc 0) open_world) =
      renderLists 0 (Suc 0) open_world"
    by (simp add: deleteTask_def tl createTaskElement_def ids)
  have v1: "arrays (deleteTask False (Some 3) (renderLists 0 (Suc 0) open_world)) ! 0 =
      [task1, task2, task4]"
    using len by (simp add: present deleteBtn_click_def Let_def createTaskElement_def cell
        js_splice_def)
  have v2: "items (store (deleteTask False (Some 3) (renderLists 0 (Suc 0) open_world)))
      TODAY_TASKS_KEY = Some (JArray [task1, task2, task4])"
    using len by (simp add: present deleteBtn_click_def Let_def createTaskElement_def cell
        js_splice_def items_saveData_single)
  have v3: "arrays (deleteTask False (Some 7) (renderLists 0 (Suc 0) open_world)) ! 0 =
      [task1, task2, task3, task4]"
    by (simp add: absent cell)
  have v4: "store (deleteTask False (Some 7) (renderLists 0 (Suc 0) open_world)) = store open_world"
    by (simp add: absent renderLists_store)
  show ?thesis
    using delete_removes_one_task [OF a b, of False "Some 3"]
    apply -
    apply (intro conjI)
          apply (rule a)
         apply (rule b)
        apply (rule c)
       apply (rule v1)
      apply (rule v2)
     apply (rule v3)
    apply (rule v4)
    done
qed

end
